theory Spec2Isabelle
  imports Complex_Main
begin

section \<open>JavaScript values used by the rate limiter\<close>

text \<open>
  A TypeScript \<open>number\<close> is a double: not-a-number, an infinity or a finite value.
  Finite values are taken as reals (every double is one); rounding plays no part in the
  limiter, which only compares a list length with a cap.
\<close>

datatype number = NaN | Num real | PosInf | NegInf

text \<open>The relational operator \<open>x >= y\<close>: false as soon as one operand is \<open>NaN\<close>.\<close>

fun js_ge :: "number \<Rightarrow> number \<Rightarrow> bool" where
  "js_ge NaN y = False"
| "js_ge (Num a) NaN = False"
| "js_ge (Num a) (Num b) = (b \<le> a)"
| "js_ge (Num a) PosInf = False"
| "js_ge (Num a) NegInf = True"
| "js_ge PosInf NaN = False"
| "js_ge PosInf (Num b) = True"
| "js_ge PosInf PosInf = True"
| "js_ge PosInf NegInf = True"
| "js_ge NegInf NaN = False"
| "js_ge NegInf (Num b) = False"
| "js_ge NegInf PosInf = False"
| "js_ge NegInf NegInf = True"

text \<open>Truthiness of a number (\<open>NaN\<close> and zero are falsy) and the operator \<open>a || b\<close>.\<close>

fun truthy :: "number \<Rightarrow> bool" where
  "truthy NaN = False"
| "truthy (Num a) = (a \<noteq> 0)"
| "truthy PosInf = True"
| "truthy NegInf = True"

definition js_or :: "number \<Rightarrow> number \<Rightarrow> number" where
  "js_or a b = (if truthy a then a else b)"

text \<open>
  The nullish operators on an optional value (\<open>None\<close> is \<open>undefined\<close>):
  \<open>a ?? b\<close> and the optional chaining \<open>obj?.field\<close>.
\<close>

definition nullish :: "'a option \<Rightarrow> 'a \<Rightarrow> 'a" where
  "nullish a b = (case a of None \<Rightarrow> b | Some v \<Rightarrow> v)"

definition opt_chain :: "'a option \<Rightarrow> ('a \<Rightarrow> 'b option) \<Rightarrow> 'b option" where
  "opt_chain obj field = (case obj of None \<Rightarrow> None | Some v \<Rightarrow> field v)"

text \<open>
  The outcome of running a piece of code that may throw. The constructor below has no
  \<open>throw\<close> statement, so it always completes normally.
\<close>

datatype 'a completion = Normal 'a | Abrupt

section \<open>The data model of \<open>src/utils/rateLimiter.ts\<close>\<close>

record RateLimitConfig =
  requestsPerMinute :: number
  requestsPerHour :: number
  requestsPerDay :: number

text \<open>\<open>Partial<RateLimitConfig>\<close>: every field may be absent.\<close>

record Partial_RateLimitConfig =
  requestsPerMinute_opt :: "number option"
  requestsPerHour_opt :: "number option"
  requestsPerDay_opt :: "number option"

text \<open>
  The class \<open>RateLimiter\<close>: the private map from client identifier to the list of
  recorded timestamps (milliseconds, as \<open>Date.now()\<close> returns them), and the
  configuration.
\<close>

record RateLimiter =
  requests :: "string \<rightharpoonup> int list"
  config :: RateLimitConfig

section \<open>The constructor\<close>

definition RateLimiter_new :: "Partial_RateLimitConfig option \<Rightarrow> RateLimiter" where
  "RateLimiter_new cfg =
     \<lparr> requests = Map.empty,
       config = \<lparr> requestsPerMinute = nullish (opt_chain cfg requestsPerMinute_opt) (Num 60),
                  requestsPerHour = nullish (opt_chain cfg requestsPerHour_opt) (Num 1000),
                  requestsPerDay = nullish (opt_chain cfg requestsPerDay_opt) (Num 5000) \<rparr> \<rparr>"

definition RateLimiter_constructor ::
    "Partial_RateLimitConfig option \<Rightarrow> RateLimiter completion" where
  "RateLimiter_constructor cfg = Normal (RateLimiter_new cfg)"

section \<open>\<open>checkLimit\<close>\<close>

definition minute :: int where
  "minute = 60 * 1000"

definition hour :: int where
  "hour = 60 * minute"

definition day :: int where
  "day = 24 * hour"

text \<open>\<open>this.requests.get(clientId) || []\<close>: an array, even an empty one, is truthy.\<close>

definition get_timestamps :: "RateLimiter \<Rightarrow> string \<Rightarrow> int list" where
  "get_timestamps this clientId =
     (case requests this clientId of None \<Rightarrow> [] | Some tss \<Rightarrow> tss)"

text \<open>Line 27: \<open>timestamps.filter(ts => now - ts < day)\<close>.\<close>

definition pruned :: "int \<Rightarrow> int list \<Rightarrow> int list" where
  "pruned now tss = filter (\<lambda>ts. now - ts < day) tss"

text \<open>Lines 29 to 31: the three counts, each taken from the pruned list.\<close>

definition lastMinute :: "int \<Rightarrow> int list \<Rightarrow> nat" where
  "lastMinute now timestamps = length (filter (\<lambda>ts. now - ts < minute) timestamps)"

definition lastHour :: "int \<Rightarrow> int list \<Rightarrow> nat" where
  "lastHour now timestamps = length (filter (\<lambda>ts. now - ts < hour) timestamps)"

definition lastDay :: "int list \<Rightarrow> nat" where
  "lastDay timestamps = length timestamps"

text \<open>
  What \<open>console.warn\<close> is given on a rejection: the window named in the message, the
  client, the count and the limit printed.
\<close>

datatype window = Minute | Hour | Day

type_synonym warning = "window \<times> string \<times> nat \<times> number"

record CheckResult =
  returned :: bool
  warned :: "warning option"
  limiter :: RateLimiter

text \<open>
  \<open>checkLimit\<close>, with the clock read of line 20 as the argument \<open>now\<close>. The
  function is \<open>async\<close> but awaits nothing: the promise it returns is resolved with
  the boolean modelled here.
\<close>

definition checkLimit :: "RateLimiter \<Rightarrow> int \<Rightarrow> string \<Rightarrow> CheckResult" where
  "checkLimit this now clientId =
     (let timestamps = pruned now (get_timestamps this clientId) in
      if js_ge (Num (real (lastMinute now timestamps))) (requestsPerMinute (config this)) then
        \<lparr> returned = False,
          warned = Some (Minute, clientId, lastMinute now timestamps,
                         requestsPerMinute (config this)),
          limiter = this \<rparr>
      else if js_ge (Num (real (lastHour now timestamps))) (requestsPerHour (config this)) then
        \<lparr> returned = False,
          warned = Some (Hour, clientId, lastHour now timestamps,
                         requestsPerHour (config this)),
          limiter = this \<rparr>
      else if js_ge (Num (real (lastDay timestamps))) (requestsPerDay (config this)) then
        \<lparr> returned = False,
          warned = Some (Day, clientId, lastDay timestamps, requestsPerDay (config this)),
          limiter = this \<rparr>
      else
        \<lparr> returned = True,
          warned = None,
          limiter = this\<lparr> requests := (requests this)(clientId \<mapsto> timestamps @ [now]) \<rparr> \<rparr>)"

section \<open>The limiter of \<open>src/api/chat.ts\<close>\<close>

text \<open>
  \<open>Number(process.env.X)\<close>: an unset variable is \<open>undefined\<close>, which converts to
  \<open>NaN\<close>; a string is converted by the language's \<open>StringToNumber\<close>, a built-in
  taken here as the parameter \<open>str2num\<close> (on a string that is no numeric literal
  it yields \<open>NaN\<close>).
\<close>

definition js_Number :: "(string \<Rightarrow> number) \<Rightarrow> string option \<Rightarrow> number" where
  "js_Number str2num v = (case v of None \<Rightarrow> NaN | Some s \<Rightarrow> str2num s)"

text \<open>Lines 4 to 8 of \<open>chat.ts\<close>, with \<open>process.env\<close> as a map from names to strings.\<close>

definition rateLimiter ::
    "(string \<Rightarrow> number) \<Rightarrow> (string \<rightharpoonup> string) \<Rightarrow> RateLimiter completion" where
  "rateLimiter str2num env =
     RateLimiter_constructor (Some
       \<lparr> requestsPerMinute_opt =
           Some (js_or (js_Number str2num (env ''RATE_LIMIT_REQUESTS_PER_MINUTE'')) (Num 15)),
         requestsPerHour_opt =
           Some (js_or (js_Number str2num (env ''RATE_LIMIT_REQUESTS_PER_HOUR'')) (Num 250)),
         requestsPerDay_opt =
           Some (js_or (js_Number str2num (env ''RATE_LIMIT_REQUESTS_PER_DAY'')) (Num 500)) \<rparr>)"

section \<open>Sequences of calls\<close>

text \<open>
  A history of calls is a list of pairs (instant, client), served one after the other
  by the same limiter, as the request handler does.
\<close>

fun after_calls :: "RateLimiter \<Rightarrow> (int \<times> string) list \<Rightarrow> RateLimiter" where
  "after_calls this [] = this"
| "after_calls this ((now, clientId) # calls) =
     after_calls (limiter (checkLimit this now clientId)) calls"

fun decisions :: "RateLimiter \<Rightarrow> (int \<times> string) list \<Rightarrow> bool list" where
  "decisions this [] = []"
| "decisions this ((now, clientId) # calls) =
     returned (checkLimit this now clientId)
       # decisions (limiter (checkLimit this now clientId)) calls"

text \<open>The number of calls of a history that were made for a client and admitted.\<close>

fun admitted :: "RateLimiter \<Rightarrow> (int \<times> string) list \<Rightarrow> string \<Rightarrow> nat" where
  "admitted this [] c = 0"
| "admitted this ((now, clientId) # calls) c =
     (if clientId = c \<and> returned (checkLimit this now clientId) then 1 else 0)
       + admitted (limiter (checkLimit this now clientId)) calls c"

text \<open>
  The configuration of the worked scenario: at most 2 requests a minute, 10 an hour and
  10 a day.
\<close>

definition scenario_limiter :: RateLimiter where
  "scenario_limiter =
     RateLimiter_new (Some \<lparr> requestsPerMinute_opt = Some (Num 2),
                              requestsPerHour_opt = Some (Num 10),
                              requestsPerDay_opt = Some (Num 10) \<rparr>)"

text \<open>
  Two further configurations used as examples: one request a minute (10 an hour, 10 a
  day), and a minute cap of 5 above an hour cap of 1.
\<close>

definition one_per_minute_limiter :: RateLimiter where
  "one_per_minute_limiter =
     RateLimiter_new (Some \<lparr> requestsPerMinute_opt = Some (Num 1),
                              requestsPerHour_opt = Some (Num 10),
                              requestsPerDay_opt = Some (Num 10) \<rparr>)"

definition hour_below_minute_limiter :: RateLimiter where
  "hour_below_minute_limiter =
     RateLimiter_new (Some \<lparr> requestsPerMinute_opt = Some (Num 5),
                              requestsPerHour_opt = Some (Num 1),
                              requestsPerDay_opt = Some (Num 10) \<rparr>)"

section \<open>Basic facts\<close>

lemma window_lengths: "minute = 60000" "hour = 3600000" "day = 86400000"
  by (simp_all add: minute_def hour_def day_def)

lemma checkLimit_rejected_state:
  "\<not> returned (checkLimit this now clientId) \<Longrightarrow> limiter (checkLimit this now clientId) = this"
  by (simp add: checkLimit_def Let_def split: if_splits)

lemma checkLimit_config [simp]:
  "config (limiter (checkLimit this now clientId)) = config this"
  by (simp add: checkLimit_def Let_def)

lemma checkLimit_other_client:
  "c \<noteq> clientId \<Longrightarrow> requests (limiter (checkLimit this now clientId)) c = requests this c"
  by (simp add: checkLimit_def Let_def)

lemma checkLimit_other_timestamps:
  "c \<noteq> clientId \<Longrightarrow>
     get_timestamps (limiter (checkLimit this now clientId)) c = get_timestamps this c"
  by (simp add: get_timestamps_def checkLimit_other_client)

lemma checkLimit_admitted_timestamps:
  "returned (checkLimit this now c) \<Longrightarrow>
     get_timestamps (limiter (checkLimit this now c)) c
       = pruned now (get_timestamps this c) @ [now]"
  by (simp add: checkLimit_def Let_def get_timestamps_def split: if_splits)

lemma checkLimit_depends:
  assumes "requests s c = requests s' c" "config s = config s'"
  shows "returned (checkLimit s now c) = returned (checkLimit s' now c)"
    and "warned (checkLimit s now c) = warned (checkLimit s' now c)"
  using assms by (simp_all add: checkLimit_def Let_def get_timestamps_def)

lemma after_calls_config [simp]: "config (after_calls this calls) = config this"
  by (induction this calls rule: after_calls.induct) simp_all

lemmas eval_defs =
  RateLimiter_new_def checkLimit_def Let_def nullish_def opt_chain_def get_timestamps_def
  pruned_def lastMinute_def lastHour_def lastDay_def window_lengths

section \<open>Counting inside a one-minute span\<close>

text \<open>
  A span is the half-open interval of instants from \<open>lo\<close> up to one minute later.
  Whatever lies in the span is younger than a minute, hence younger than a day, for
  every instant of the span.
\<close>

lemma filter_length_mono:
  "(\<And>x. x \<in> set xs \<Longrightarrow> P x \<Longrightarrow> Q x) \<Longrightarrow> length (filter P xs) \<le> length (filter Q xs)"
  by (induction xs) auto

lemma span_le_lastMinute:
  assumes "lo \<le> now" "now < lo + minute"
  shows "length (filter (\<lambda>ts. lo \<le> ts \<and> ts < lo + minute) tss)
           \<le> lastMinute now (pruned now tss)"
  unfolding lastMinute_def pruned_def filter_filter
  using assms by (intro filter_length_mono) (auto simp: window_lengths)

lemma span_pruned:
  assumes "lo \<le> now" "now < lo + minute"
  shows "filter (\<lambda>ts. lo \<le> ts \<and> ts < lo + minute) (pruned now tss)
           = filter (\<lambda>ts. lo \<le> ts \<and> ts < lo + minute) tss"
  unfolding pruned_def filter_filter
  using assms by (intro filter_cong) (auto simp: window_lengths)

lemma checkLimit_admitted_minute:
  assumes "requestsPerMinute (config this) = Num (real N)" "returned (checkLimit this now c)"
  shows "lastMinute now (pruned now (get_timestamps this c)) < N"
  using assms by (simp add: checkLimit_def Let_def split: if_splits)

lemma checkLimit_minute_rejects:
  assumes "requestsPerMinute (config this) = Num (real N)"
    and "N \<le> lastMinute now (pruned now (get_timestamps this c))"
  shows "\<not> returned (checkLimit this now c)"
  using assms by (simp add: checkLimit_def Let_def)

text \<open>Every admitted call of the span leaves its timestamp in the client's record.\<close>

lemma recorded_ge_admitted:
  assumes "\<forall>(t, c') \<in> set calls. c' = c \<longrightarrow> lo \<le> t \<and> t < lo + minute"
  shows "length (filter (\<lambda>ts. lo \<le> ts \<and> ts < lo + minute) (get_timestamps this c))
           + admitted this calls c
         \<le> length (filter (\<lambda>ts. lo \<le> ts \<and> ts < lo + minute)
               (get_timestamps (after_calls this calls) c))"
  using assms
proof (induction calls arbitrary: this)
  case Nil
  then show ?case by simp
next
  case (Cons call calls)
  obtain t c' where call: "call = (t, c')" by (cases call)
  let ?r = "checkLimit this t c'"
  from Cons.prems have rest: "\<forall>(t, c') \<in> set calls. c' = c \<longrightarrow> lo \<le> t \<and> t < lo + minute"
    by simp
  note IH = Cons.IH [OF rest, of "limiter ?r"]
  show ?case
  proof (cases "c' = c \<and> returned ?r")
    case True
    with Cons.prems call have span: "lo \<le> t" "t < lo + minute" by auto
    from True have "get_timestamps (limiter ?r) c = pruned t (get_timestamps this c) @ [t]"
      using checkLimit_admitted_timestamps by blast
    with span IH True call show ?thesis
      by (simp add: span_pruned)
  next
    case False
    then have "get_timestamps (limiter ?r) c = get_timestamps this c"
      using checkLimit_other_timestamps [of c c' this t] checkLimit_rejected_state [of this t c']
      by (cases "c' = c") auto
    with IH False call show ?thesis by auto
  qed
qed

text \<open>The admitted calls of a span never outnumber the cap.\<close>

lemma admitted_bounded:
  assumes "requestsPerMinute (config this) = Num (real N)"
    and "\<forall>(t, c') \<in> set calls. c' = c \<longrightarrow> lo \<le> t \<and> t < lo + minute"
  shows "length (filter (\<lambda>ts. lo \<le> ts \<and> ts < lo + minute) (get_timestamps this c))
           + admitted this calls c
         \<le> max N (length (filter (\<lambda>ts. lo \<le> ts \<and> ts < lo + minute)
                     (get_timestamps this c)))"
  using assms
proof (induction calls arbitrary: this)
  case Nil
  then show ?case by simp
next
  case (Cons call calls)
  obtain t c' where call: "call = (t, c')" by (cases call)
  let ?r = "checkLimit this t c'"
  let ?k = "\<lambda>s. length (filter (\<lambda>ts. lo \<le> ts \<and> ts < lo + minute) (get_timestamps s c))"
  from Cons.prems have rest: "\<forall>(t, c') \<in> set calls. c' = c \<longrightarrow> lo \<le> t \<and> t < lo + minute"
    by simp
  have cap: "requestsPerMinute (config (limiter ?r)) = Num (real N)"
    using Cons.prems(1) by simp
  note IH = Cons.IH [OF cap rest]
  show ?case
  proof (cases "c' = c \<and> returned ?r")
    case True
    with Cons.prems call have span: "lo \<le> t" "t < lo + minute" by auto
    from True have ts: "get_timestamps (limiter ?r) c = pruned t (get_timestamps this c) @ [t]"
      using checkLimit_admitted_timestamps by blast
    have "?k this \<le> lastMinute t (pruned t (get_timestamps this c))"
      using span by (rule span_le_lastMinute)
    also have "\<dots> < N"
      using Cons.prems(1) True by (auto intro: checkLimit_admitted_minute)
    finally have below: "?k this < N" .
    have k': "?k (limiter ?r) = ?k this + 1"
      using span by (simp add: ts span_pruned)
    from IH k' below have "?k this + 1 + admitted (limiter ?r) calls c \<le> N"
      by simp
    with True call show ?thesis by simp
  next
    case False
    then have "get_timestamps (limiter ?r) c = get_timestamps this c"
      using checkLimit_other_timestamps [of c c' this t] checkLimit_rejected_state [of this t c']
      by (cases "c' = c") auto
    with IH False call show ?thesis by auto
  qed
qed

lemma cap_reached_rejects:
  assumes cap: "requestsPerMinute (config this) = Num (real N)"
    and calls: "\<forall>(t, c') \<in> set calls. c' = c \<longrightarrow> lo \<le> t \<and> t < lo + minute"
    and now: "lo \<le> now" "now < lo + minute"
    and full: "admitted this calls c = N"
  shows "\<not> returned (checkLimit (after_calls this calls) now c)"
proof -
  let ?final = "after_calls this calls"
  have "N \<le> length (filter (\<lambda>ts. lo \<le> ts \<and> ts < lo + minute) (get_timestamps ?final c))"
    using recorded_ge_admitted [OF calls, of this] full by simp
  also have "\<dots> \<le> lastMinute now (pruned now (get_timestamps ?final c))"
    using now by (rule span_le_lastMinute)
  finally show ?thesis
    using cap by (intro checkLimit_minute_rejects [where N = N]) simp_all
qed

lemma scenario_rapid_calls:
  assumes "t1 \<le> t2" "t2 \<le> t3" "t3 < t1 + 1000"
  shows "decisions scenario_limiter [(t1, ''A''), (t2, ''A''), (t3, ''A'')]
           = [True, True, False]"
  using assms by (simp add: scenario_limiter_def eval_defs)

section \<open>The minute cap\<close>

text \<open>
  Claim C1. Take any limiter whose minute cap is the whole number \<open>N\<close>, any client
  and any history whose calls for that client all fall in one span of a minute. The
  history admits at most \<open>N\<close> calls of the client; and once it has admitted exactly
  \<open>N\<close>, a further call of the client in the same span returns false. With the caps
  2 a minute, 10 an hour and 10 a day, three calls of client A within one second are
  answered true, true, false.
\<close>

theorem minute_cap_enforced:
  "(requestsPerMinute (config this) = Num (real N)
      \<and> (\<forall>(t, c') \<in> set calls. c' = c \<longrightarrow> lo \<le> t \<and> t < lo + minute)
    \<longrightarrow> admitted this calls c \<le> N
        \<and> (admitted this calls c = N \<and> lo \<le> now \<and> now < lo + minute
             \<longrightarrow> \<not> returned (checkLimit (after_calls this calls) now c)))
   \<and> (t1 \<le> t2 \<and> t2 \<le> t3 \<and> t3 < t1 + 1000
        \<longrightarrow> decisions scenario_limiter [(t1, ''A''), (t2, ''A''), (t3, ''A'')]
              = [True, True, False])"
proof (intro conjI impI)
  assume a: "requestsPerMinute (config this) = Num (real N)
      \<and> (\<forall>(t, c') \<in> set calls. c' = c \<longrightarrow> lo \<le> t \<and> t < lo + minute)"
  then show "admitted this calls c \<le> N"
    using admitted_bounded [of this N calls c lo] by (simp add: max_def split: if_splits)
  assume "admitted this calls c = N \<and> lo \<le> now \<and> now < lo + minute"
  with a show "\<not> returned (checkLimit (after_calls this calls) now c)"
    using cap_reached_rejects [of this N calls c lo now] by blast
next
  assume "t1 \<le> t2 \<and> t2 \<le> t3 \<and> t3 < t1 + 1000"
  then show "decisions scenario_limiter [(t1, ''A''), (t2, ''A''), (t3, ''A'')]
      = [True, True, False]"
    using scenario_rapid_calls [of t1 t2 t3] by blast
qed

theorem minute_cap_enforced_witness:
  "requestsPerMinute (config scenario_limiter) = Num (real 2)
   \<and> admitted scenario_limiter
        [(1700000000000, ''A''), (1700000000100, ''B''), (1700000000200, ''A'')] ''A'' = 2
   \<and> \<not> returned (checkLimit
        (after_calls scenario_limiter
           [(1700000000000, ''A''), (1700000000100, ''B''), (1700000000200, ''A'')])
        1700000059999 ''A'')
   \<and> decisions scenario_limiter
        [(1700000000000, ''A''), (1700000000001, ''A''), (1700000000002, ''A'')]
       = [True, True, False]"
  using minute_cap_enforced [where this = scenario_limiter and N = 2 and c = "''A''"
      and calls = "[(1700000000000, ''A''), (1700000000100, ''B''), (1700000000200, ''A'')]"
      and lo = 1700000000000 and now = 1700000059999
      and ?t1.0 = 1700000000000 and ?t2.0 = 1700000000001 and ?t3.0 = 1700000000002]
  by (simp add: scenario_limiter_def eval_defs)

section \<open>Rejected calls\<close>

text \<open>
  Claim C2. A call that returns false appends no timestamp: it leaves the limiter, and so
  the client's record, exactly as it found them, and every later call is decided as if
  the rejected call had never been made.
\<close>

theorem rejected_call_records_nothing:
  "\<not> returned (checkLimit this now clientId) \<Longrightarrow>
     limiter (checkLimit this now clientId) = this
     \<and> get_timestamps (limiter (checkLimit this now clientId)) clientId
         = get_timestamps this clientId
     \<and> decisions (limiter (checkLimit this now clientId)) calls = decisions this calls"
  by (simp add: checkLimit_rejected_state)

theorem rejected_call_records_nothing_witness:
  "\<not> returned (checkLimit
        (after_calls scenario_limiter [(1700000000000, ''A''), (1700000000001, ''A'')])
        1700000000002 ''A'')
   \<and> get_timestamps (limiter (checkLimit
        (after_calls scenario_limiter [(1700000000000, ''A''), (1700000000001, ''A'')])
        1700000000002 ''A'')) ''A'' = [1700000000000, 1700000000001]
   \<and> decisions (limiter (checkLimit
        (after_calls scenario_limiter [(1700000000000, ''A''), (1700000000001, ''A'')])
        1700000000002 ''A'')) [(1700000060000, ''A''), (1700000060000, ''A'')]
       = [True, False]"
  using rejected_call_records_nothing
    [where this = "after_calls scenario_limiter
                     [(1700000000000, ''A''), (1700000000001, ''A'')]"
       and now = 1700000000002 and clientId = "''A''"
       and calls = "[(1700000060000, ''A''), (1700000060000, ''A'')]"]
  by (simp add: scenario_limiter_def eval_defs)

section \<open>The order of the three checks\<close>

text \<open>
  Claim C3. Write M, H and D for "the minute (hour, day) count is greater than or equal to
  its cap". Whatever the three caps are, a call warns about the minute window exactly when
  M holds, about the hour window exactly when M fails and H holds, about the day window
  exactly when M and H fail and D holds, and it returns true, without a warning, exactly
  when all three fail. So the first window at its cap, in the order minute, hour, day,
  is the only one reported, and the later comparisons do not matter.
\<close>

theorem windows_checked_in_order:
  "(let timestamps = pruned now (get_timestamps this clientId);
        M = js_ge (Num (real (lastMinute now timestamps))) (requestsPerMinute (config this));
        H = js_ge (Num (real (lastHour now timestamps))) (requestsPerHour (config this));
        D = js_ge (Num (real (lastDay timestamps))) (requestsPerDay (config this));
        r = checkLimit this now clientId
    in (warned r = Some (Minute, clientId, lastMinute now timestamps,
                         requestsPerMinute (config this))) = M
     \<and> (warned r = Some (Hour, clientId, lastHour now timestamps,
                         requestsPerHour (config this))) = (\<not> M \<and> H)
     \<and> (warned r = Some (Day, clientId, lastDay timestamps,
                         requestsPerDay (config this))) = (\<not> M \<and> \<not> H \<and> D)
     \<and> (warned r = None) = (\<not> M \<and> \<not> H \<and> \<not> D)
     \<and> returned r = (warned r = None)
     \<and> (map_option fst (warned r) = Some Minute) = M
     \<and> (map_option fst (warned r) = Some Hour) = (\<not> M \<and> H)
     \<and> (map_option fst (warned r) = Some Day) = (\<not> M \<and> \<not> H \<and> D))"
  by (simp add: checkLimit_def Let_def)

theorem windows_checked_in_order_witness:
  "warned (checkLimit (after_calls hour_below_minute_limiter [(1700000000000, ''A'')])
       1700000000001 ''A'') = Some (Hour, ''A'', 1, Num 1)
   \<and> \<not> returned (checkLimit (after_calls hour_below_minute_limiter [(1700000000000, ''A'')])
       1700000000001 ''A'')
   \<and> warned (checkLimit (after_calls one_per_minute_limiter [(1700000000000, ''A'')])
       1700000000001 ''A'') = Some (Minute, ''A'', 1, Num 1)
   \<and> warned (checkLimit hour_below_minute_limiter 1700000000000 ''A'') = None
   \<and> returned (checkLimit hour_below_minute_limiter 1700000000000 ''A'')"
  using windows_checked_in_order
      [where this = "after_calls hour_below_minute_limiter [(1700000000000, ''A'')]"
         and now = 1700000000001 and clientId = "''A''"]
    windows_checked_in_order
      [where this = "after_calls one_per_minute_limiter [(1700000000000, ''A'')]"
         and now = 1700000000001 and clientId = "''A''"]
    windows_checked_in_order
      [where this = hour_below_minute_limiter and now = 1700000000000 and clientId = "''A''"]
  by (simp add: hour_below_minute_limiter_def one_per_minute_limiter_def eval_defs)

section \<open>Pruning of the stored record\<close>

text \<open>
  Claim C4, as stated, fails on a rejected call. With one request a minute allowed, a
  client is admitted at an instant and again 10 ms short of 24 hours later; 20 ms after
  that the call is rejected by the minute cap, and the stored record still holds the first
  timestamp, by then more than 24 hours old.
\<close>

theorem rejected_call_keeps_expired_timestamp:
  "\<not> returned (checkLimit
        (after_calls one_per_minute_limiter
           [(1700000000000, ''A''), (1700086399990, ''A'')])
        1700086400010 ''A'')
   \<and> get_timestamps (limiter (checkLimit
        (after_calls one_per_minute_limiter
           [(1700000000000, ''A''), (1700086399990, ''A'')])
        1700086400010 ''A'')) ''A'' = [1700000000000, 1700086399990]
   \<and> day < 1700086400010 - 1700000000000"
  by (simp add: one_per_minute_limiter_def eval_defs)

text \<open>
  Claim C4, amended. The list a call counts from holds no timestamp aged 24 hours or more.
  A call that admits stores that pruned list, with its own instant appended, so the
  stored record then holds no timestamp aged 24 hours or more. A call that rejects stores
  nothing: the client's stored record stays as it was.
\<close>

theorem record_pruned_on_admission:
  "(\<forall>ts \<in> set (pruned now (get_timestamps this clientId)). now - ts < day)
   \<and> (returned (checkLimit this now clientId) \<longrightarrow>
        get_timestamps (limiter (checkLimit this now clientId)) clientId
          = pruned now (get_timestamps this clientId) @ [now]
        \<and> (\<forall>ts \<in> set (get_timestamps (limiter (checkLimit this now clientId)) clientId).
              now - ts < day))
   \<and> (\<not> returned (checkLimit this now clientId) \<longrightarrow>
        get_timestamps (limiter (checkLimit this now clientId)) clientId
          = get_timestamps this clientId)"
proof (intro conjI impI)
  show "\<forall>ts \<in> set (pruned now (get_timestamps this clientId)). now - ts < day"
    by (simp add: pruned_def)
next
  assume adm: "returned (checkLimit this now clientId)"
  then show stored: "get_timestamps (limiter (checkLimit this now clientId)) clientId
      = pruned now (get_timestamps this clientId) @ [now]"
    by (rule checkLimit_admitted_timestamps)
  show "\<forall>ts \<in> set (get_timestamps (limiter (checkLimit this now clientId)) clientId).
      now - ts < day"
    unfolding stored by (auto simp: pruned_def window_lengths)
next
  assume "\<not> returned (checkLimit this now clientId)"
  then show "get_timestamps (limiter (checkLimit this now clientId)) clientId
      = get_timestamps this clientId"
    by (simp add: checkLimit_rejected_state)
qed

theorem record_pruned_on_admission_witness:
  "returned (checkLimit (after_calls one_per_minute_limiter [(1700000000000, ''A'')])
       1700086400000 ''A'')
   \<and> get_timestamps (limiter (checkLimit
        (after_calls one_per_minute_limiter [(1700000000000, ''A'')])
        1700086400000 ''A'')) ''A'' = [1700086400000]
   \<and> \<not> returned (checkLimit (after_calls one_per_minute_limiter [(1700000000000, ''A'')])
       1700000000001 ''A'')
   \<and> get_timestamps (limiter (checkLimit
        (after_calls one_per_minute_limiter [(1700000000000, ''A'')])
        1700000000001 ''A'')) ''A'' = [1700000000000]"
  using record_pruned_on_admission
      [where this = "after_calls one_per_minute_limiter [(1700000000000, ''A'')]"
         and now = 1700086400000 and clientId = "''A''"]
    record_pruned_on_admission
      [where this = "after_calls one_per_minute_limiter [(1700000000000, ''A'')]"
         and now = 1700000000001 and clientId = "''A''"]
  by (simp add: one_per_minute_limiter_def eval_defs)

section \<open>Requests more than a day apart\<close>

lemma pruned_after_a_day:
  assumes "\<forall>ts \<in> set tss. ts \<le> t" "t + day < now"
  shows "pruned now (pruned t tss @ [t]) = []"
  using assms by (auto simp: pruned_def filter_empty_conv)

lemma pruned_drops_expired:
  "pruned now (filter (\<lambda>ts. now - ts \<le> day) tss) = pruned now tss"
  unfolding pruned_def filter_filter by (rule filter_cong) auto

lemma js_ge_count_mono:
  "js_ge (Num (real 0)) cap \<Longrightarrow> js_ge (Num (real n)) cap"
  by (cases cap) simp_all

lemma empty_history_admitted:
  assumes adm: "returned (checkLimit this t c)"
    and cfg: "config s = config this"
    and empty: "pruned now (get_timestamps s c) = []"
  shows "returned (checkLimit s now c)"
proof -
  let ?ts = "pruned t (get_timestamps this c)"
  from adm have "\<not> js_ge (Num (real (lastMinute t ?ts))) (requestsPerMinute (config this))"
    and "\<not> js_ge (Num (real (lastHour t ?ts))) (requestsPerHour (config this))"
    and "\<not> js_ge (Num (real (lastDay ?ts))) (requestsPerDay (config this))"
    by (simp_all add: checkLimit_def Let_def split: if_splits)
  then have "\<not> js_ge (Num (real 0)) (requestsPerMinute (config this))"
    and "\<not> js_ge (Num (real 0)) (requestsPerHour (config this))"
    and "\<not> js_ge (Num (real 0)) (requestsPerDay (config this))"
    using js_ge_count_mono by blast+
  then show ?thesis
    by (simp add: checkLimit_def Let_def empty cfg lastMinute_def lastHour_def lastDay_def)
qed

lemma empty_history_same:
  assumes cfg: "config s = config s'"
    and empty: "pruned now (get_timestamps s c) = []" "pruned now (get_timestamps s' c) = []"
  shows "returned (checkLimit s now c) = returned (checkLimit s' now c)"
    and "warned (checkLimit s now c) = warned (checkLimit s' now c)"
  by (simp_all add: checkLimit_def Let_def empty cfg)

text \<open>
  Claim C5. Timestamps more than 24 hours old never influence a call: it is decided as if
  they had been removed from the record beforehand. In particular, when a client whose
  record holds nothing later than \<open>t\<close> (a client never seen, for one) is admitted at
  \<open>t\<close>, a call more than 24 hours after \<open>t\<close> (at \<open>t\<close> + 24 h + 1 ms, for one)
  counts from the empty list: the three counts are zero, and the call is answered, and
  recorded, as it would be for a client never seen.
\<close>

theorem calls_a_day_apart_independent:
  "returned (checkLimit this now c)
     = returned (checkLimit
         (this\<lparr> requests := (requests this)
                   (c \<mapsto> filter (\<lambda>ts. now - ts \<le> day) (get_timestamps this c)) \<rparr>) now c)
   \<and> ((\<forall>ts \<in> set (get_timestamps this c). ts \<le> t) \<and> returned (checkLimit this t c)
        \<and> t + day < now
      \<longrightarrow> (let seen = limiter (checkLimit this t c);
               unseen = this\<lparr> requests := (requests this)(c := None) \<rparr>;
               timestamps = pruned now (get_timestamps seen c)
           in timestamps = []
            \<and> lastMinute now timestamps = 0
            \<and> lastHour now timestamps = 0
            \<and> lastDay timestamps = 0
            \<and> returned (checkLimit seen now c) = returned (checkLimit unseen now c)
            \<and> warned (checkLimit seen now c) = warned (checkLimit unseen now c)
            \<and> get_timestamps (limiter (checkLimit seen now c)) c
                = get_timestamps (limiter (checkLimit unseen now c)) c))"
proof (intro conjI impI)
  show "returned (checkLimit this now c)
     = returned (checkLimit
         (this\<lparr> requests := (requests this)
                   (c \<mapsto> filter (\<lambda>ts. now - ts \<le> day) (get_timestamps this c)) \<rparr>) now c)"
    by (simp add: checkLimit_def Let_def get_timestamps_def pruned_drops_expired)
next
  assume a: "(\<forall>ts \<in> set (get_timestamps this c). ts \<le> t) \<and> returned (checkLimit this t c)
      \<and> t + day < now"
  let ?seen = "limiter (checkLimit this t c)"
  let ?unseen = "this\<lparr> requests := (requests this)(c := None) \<rparr>"
  from a have "get_timestamps ?seen c = pruned t (get_timestamps this c) @ [t]"
    by (simp add: checkLimit_admitted_timestamps)
  with a have seen: "pruned now (get_timestamps ?seen c) = []"
    by (simp add: pruned_after_a_day)
  have unseen: "pruned now (get_timestamps ?unseen c) = []"
    by (simp add: get_timestamps_def pruned_def)
  have cfg: "config ?seen = config ?unseen"
    by simp
  have adm: "returned (checkLimit ?seen now c)" "returned (checkLimit ?unseen now c)"
    using a seen unseen by (auto intro: empty_history_admitted [where this = this and t = t])
  have stored: "get_timestamps (limiter (checkLimit ?seen now c)) c = [now]"
    "get_timestamps (limiter (checkLimit ?unseen now c)) c = [now]"
    using adm seen unseen by (simp_all add: checkLimit_admitted_timestamps)
  show "(let seen = limiter (checkLimit this t c);
               unseen = this\<lparr> requests := (requests this)(c := None) \<rparr>;
               timestamps = pruned now (get_timestamps seen c)
           in timestamps = []
            \<and> lastMinute now timestamps = 0
            \<and> lastHour now timestamps = 0
            \<and> lastDay timestamps = 0
            \<and> returned (checkLimit seen now c) = returned (checkLimit unseen now c)
            \<and> warned (checkLimit seen now c) = warned (checkLimit unseen now c)
            \<and> get_timestamps (limiter (checkLimit seen now c)) c
                = get_timestamps (limiter (checkLimit unseen now c)) c)"
    unfolding Let_def seen stored
    using empty_history_same [OF cfg seen unseen]
    by (simp add: lastMinute_def lastHour_def lastDay_def)
qed

theorem calls_a_day_apart_independent_witness:
  "returned (checkLimit scenario_limiter 1700000000000 ''A'')
   \<and> pruned 1700086400001
        (get_timestamps (limiter (checkLimit scenario_limiter 1700000000000 ''A'')) ''A'') = []
   \<and> returned (checkLimit (limiter (checkLimit scenario_limiter 1700000000000 ''A''))
        1700086400001 ''A'')
   \<and> get_timestamps (limiter (checkLimit
        (limiter (checkLimit scenario_limiter 1700000000000 ''A''))
        1700086400001 ''A'')) ''A'' = [1700086400001]"
  using calls_a_day_apart_independent
    [where this = scenario_limiter and t = 1700000000000 and now = 1700086400001
       and c = "''A''"]
  by (simp add: scenario_limiter_def eval_defs)
section \<open>Construction with a non-positive cap\<close>

lemma nonpositive_cap_rejects:
  assumes "x \<le> 0"
    and "requestsPerMinute (config this) = Num x \<or> requestsPerHour (config this) = Num x
         \<or> requestsPerDay (config this) = Num x"
  shows "\<not> returned (checkLimit this now c)"
  using assms by (auto simp: checkLimit_def Let_def)

text \<open>
  Claim C6, as stated, fails: the constructor has no check of its argument. Given a minute
  cap of 0 and an hour cap of -1 it completes normally, with both caps stored.
\<close>

theorem nonpositive_cap_accepted:
  "RateLimiter_constructor
     (Some \<lparr> requestsPerMinute_opt = Some (Num 0), requestsPerHour_opt = Some (Num (- 1)),
             requestsPerDay_opt = None \<rparr>)
   = Normal (RateLimiter_new
       (Some \<lparr> requestsPerMinute_opt = Some (Num 0), requestsPerHour_opt = Some (Num (- 1)),
               requestsPerDay_opt = None \<rparr>))
   \<and> RateLimiter_constructor
     (Some \<lparr> requestsPerMinute_opt = Some (Num 0), requestsPerHour_opt = Some (Num (- 1)),
             requestsPerDay_opt = None \<rparr>) \<noteq> Abrupt
   \<and> config (RateLimiter_new
       (Some \<lparr> requestsPerMinute_opt = Some (Num 0), requestsPerHour_opt = Some (Num (- 1)),
               requestsPerDay_opt = None \<rparr>))
     = \<lparr> requestsPerMinute = Num 0, requestsPerHour = Num (- 1), requestsPerDay = Num 5000 \<rparr>"
  by (simp add: RateLimiter_constructor_def RateLimiter_new_def nullish_def opt_chain_def)

text \<open>
  Claim C6, amended. Construction never signals an error: whatever the configuration, a
  limiter is returned, a cap that was supplied is stored as given, non-positive or not,
  and a cap that was not supplied takes its default (60 a minute, 1000 an hour, 5000 a
  day). A limiter so built that holds a non-positive cap rejects every call, whatever
  calls came before.
\<close>

theorem constructor_accepts_any_cap:
  "(\<exists>rl. RateLimiter_constructor cfg = Normal rl
      \<and> (\<forall>m. opt_chain cfg requestsPerMinute_opt = Some m \<longrightarrow> requestsPerMinute (config rl) = m)
      \<and> (\<forall>h. opt_chain cfg requestsPerHour_opt = Some h \<longrightarrow> requestsPerHour (config rl) = h)
      \<and> (\<forall>d. opt_chain cfg requestsPerDay_opt = Some d \<longrightarrow> requestsPerDay (config rl) = d)
      \<and> (opt_chain cfg requestsPerMinute_opt = None \<longrightarrow> requestsPerMinute (config rl) = Num 60)
      \<and> (opt_chain cfg requestsPerHour_opt = None \<longrightarrow> requestsPerHour (config rl) = Num 1000)
      \<and> (opt_chain cfg requestsPerDay_opt = None \<longrightarrow> requestsPerDay (config rl) = Num 5000)
      \<and> (\<forall>x calls now c.
            x \<le> 0 \<and> (requestsPerMinute (config rl) = Num x \<or> requestsPerHour (config rl) = Num x
                      \<or> requestsPerDay (config rl) = Num x)
            \<longrightarrow> \<not> returned (checkLimit (after_calls rl calls) now c)))"
proof (intro exI conjI allI impI)
  show "RateLimiter_constructor cfg = Normal (RateLimiter_new cfg)"
    by (simp add: RateLimiter_constructor_def)
next
  fix m assume "opt_chain cfg requestsPerMinute_opt = Some m"
  then show "requestsPerMinute (config (RateLimiter_new cfg)) = m"
    by (simp add: RateLimiter_new_def nullish_def)
next
  fix h assume "opt_chain cfg requestsPerHour_opt = Some h"
  then show "requestsPerHour (config (RateLimiter_new cfg)) = h"
    by (simp add: RateLimiter_new_def nullish_def)
next
  fix d assume "opt_chain cfg requestsPerDay_opt = Some d"
  then show "requestsPerDay (config (RateLimiter_new cfg)) = d"
    by (simp add: RateLimiter_new_def nullish_def)
next
  assume "opt_chain cfg requestsPerMinute_opt = None"
  then show "requestsPerMinute (config (RateLimiter_new cfg)) = Num 60"
    by (simp add: RateLimiter_new_def nullish_def)
next
  assume "opt_chain cfg requestsPerHour_opt = None"
  then show "requestsPerHour (config (RateLimiter_new cfg)) = Num 1000"
    by (simp add: RateLimiter_new_def nullish_def)
next
  assume "opt_chain cfg requestsPerDay_opt = None"
  then show "requestsPerDay (config (RateLimiter_new cfg)) = Num 5000"
    by (simp add: RateLimiter_new_def nullish_def)
next
  fix x :: real and calls now c
  assume "x \<le> 0 \<and> (requestsPerMinute (config (RateLimiter_new cfg)) = Num x
      \<or> requestsPerHour (config (RateLimiter_new cfg)) = Num x
      \<or> requestsPerDay (config (RateLimiter_new cfg)) = Num x)"
  then show "\<not> returned (checkLimit (after_calls (RateLimiter_new cfg) calls) now c)"
    by (intro nonpositive_cap_rejects [where x = x]) simp_all
qed

theorem constructor_accepts_any_cap_witness:
  "(\<exists>rl. RateLimiter_constructor
            (Some \<lparr> requestsPerMinute_opt = Some (Num 10), requestsPerHour_opt = Some (Num 0),
                    requestsPerDay_opt = None \<rparr>) = Normal rl
      \<and> requestsPerMinute (config rl) = Num 10
      \<and> requestsPerHour (config rl) = Num 0
      \<and> requestsPerDay (config rl) = Num 5000
      \<and> \<not> returned (checkLimit rl 1700000000000 ''A''))"
proof -
  let ?cfg = "Some \<lparr> requestsPerMinute_opt = Some (Num 10),
                       requestsPerHour_opt = Some (Num 0), requestsPerDay_opt = None \<rparr>"
  from constructor_accepts_any_cap [where cfg = ?cfg]
  show ?thesis
  proof (elim exE conjE)
    fix rl
    assume built: "RateLimiter_constructor ?cfg = Normal rl"
      and m: "\<forall>m. opt_chain ?cfg requestsPerMinute_opt = Some m
                \<longrightarrow> requestsPerMinute (config rl) = m"
      and h: "\<forall>h. opt_chain ?cfg requestsPerHour_opt = Some h
                \<longrightarrow> requestsPerHour (config rl) = h"
      and d: "opt_chain ?cfg requestsPerDay_opt = None
                \<longrightarrow> requestsPerDay (config rl) = Num 5000"
      and rejects: "\<forall>x calls now c.
          x \<le> 0 \<and> (requestsPerMinute (config rl) = Num x \<or> requestsPerHour (config rl) = Num x
                    \<or> requestsPerDay (config rl) = Num x)
          \<longrightarrow> \<not> returned (checkLimit (after_calls rl calls) now c)"
    from m have minute_cap: "requestsPerMinute (config rl) = Num 10"
      by (simp add: opt_chain_def)
    from h have hour_cap: "requestsPerHour (config rl) = Num 0"
      by (simp add: opt_chain_def)
    from d have day_cap: "requestsPerDay (config rl) = Num 5000"
      by (simp add: opt_chain_def)
    from rejects [rule_format, of 0 "[]" 1700000000000 "''A''"] hour_cap
    have rejected: "\<not> returned (checkLimit rl 1700000000000 ''A'')"
      by simp
    show ?thesis
      by (rule exI [where x = rl]) (intro conjI built minute_cap hour_cap day_cap rejected)
  qed
qed

section \<open>Separation of clients\<close>

lemma after_calls_other_client:
  assumes "\<forall>(t, c') \<in> set calls. c' \<noteq> c"
  shows "requests (after_calls this calls) c = requests this c"
  using assms
proof (induction calls arbitrary: this)
  case Nil
  then show ?case by simp
next
  case (Cons call calls)
  obtain t c' where call: "call = (t, c')" by (cases call)
  with Cons.prems have "c \<noteq> c'" and "\<forall>(t, c') \<in> set calls. c' \<noteq> c" by auto
  then show ?case
    using Cons.IH [of "limiter (checkLimit this t c')"] call
    by (simp add: checkLimit_other_client)
qed

lemma scenario_second_client:
  "decisions scenario_limiter [(t, ''A''), (t, ''A''), (t, ''A''), (t, ''B'')]
     = [True, True, False, True]"
  by (simp add: scenario_limiter_def eval_defs)

text \<open>
  Claim C7. Calls made for other clients leave a client's record as it was, and so leave
  the answer to its next call, and the warning of that call, as they would have been
  without them; in particular for any number of calls of a client A, at any instants, and
  the next call of a different client B. With the caps 2 a minute, 10 an hour and 10 a
  day, after three calls of A at one instant (answered true, true, false) a call of B at
  the same instant is answered true.
\<close>

theorem clients_do_not_share_quota:
  "((\<forall>(t, c) \<in> set calls. c \<noteq> B) \<longrightarrow>
       requests (after_calls this calls) B = requests this B
       \<and> returned (checkLimit (after_calls this calls) now B) = returned (checkLimit this now B)
       \<and> warned (checkLimit (after_calls this calls) now B) = warned (checkLimit this now B))
   \<and> (A \<noteq> B \<longrightarrow>
       returned (checkLimit (after_calls this (map (\<lambda>t. (t, A)) instants)) now B)
         = returned (checkLimit this now B))
   \<and> decisions scenario_limiter [(t, ''A''), (t, ''A''), (t, ''A''), (t, ''B'')]
       = [True, True, False, True]"
proof (intro conjI impI)
  assume others: "\<forall>(t, c) \<in> set calls. c \<noteq> B"
  then show same: "requests (after_calls this calls) B = requests this B"
    by (rule after_calls_other_client)
  show "returned (checkLimit (after_calls this calls) now B) = returned (checkLimit this now B)"
    using same by (intro checkLimit_depends) simp_all
  show "warned (checkLimit (after_calls this calls) now B) = warned (checkLimit this now B)"
    using same by (intro checkLimit_depends) simp_all
next
  assume "A \<noteq> B"
  then have "\<forall>(t, c) \<in> set (map (\<lambda>t. (t, A)) instants). c \<noteq> B"
    by auto
  then have "requests (after_calls this (map (\<lambda>t. (t, A)) instants)) B = requests this B"
    by (rule after_calls_other_client)
  then show "returned (checkLimit (after_calls this (map (\<lambda>t. (t, A)) instants)) now B)
      = returned (checkLimit this now B)"
    by (intro checkLimit_depends) simp_all
next
  show "decisions scenario_limiter [(t, ''A''), (t, ''A''), (t, ''A''), (t, ''B'')]
      = [True, True, False, True]"
    by (rule scenario_second_client)
qed

theorem clients_do_not_share_quota_witness:
  "\<not> returned (checkLimit
        (after_calls scenario_limiter [(1700000000000, ''A''), (1700000000000, ''A'')])
        1700000000000 ''A'')
   \<and> returned (checkLimit
        (after_calls scenario_limiter
           (map (\<lambda>t. (t, ''A'')) [1700000000000, 1700000000000, 1700000000000]))
        1700000000000 ''B'')
   \<and> returned (checkLimit scenario_limiter 1700000000000 ''B'')
   \<and> decisions scenario_limiter
        [(1700000000000, ''A''), (1700000000000, ''A''), (1700000000000, ''A''),
         (1700000000000, ''B'')] = [True, True, False, True]"
  using clients_do_not_share_quota
    [where A = "''A''" and B = "''B''" and this = scenario_limiter
       and instants = "[1700000000000, 1700000000000, 1700000000000]"
       and calls = "[(1700000000000, ''A''), (1700000000000, ''A'')]"
       and now = 1700000000000 and t = 1700000000000]
  by (simp add: scenario_limiter_def eval_defs)

section \<open>Default caps\<close>

text \<open>
  Claim C8. A limiter constructed with no configuration, or with one that sets no cap,
  has the caps 60 a minute, 1000 an hour and 5000 a day. The limiter of the chat endpoint
  is always constructed; each of its caps is 15 a minute (250 an hour, 500 a day) whenever
  the environment variable for it is unset or holds a string that converts to \<open>NaN\<close>
  (or to zero), and no environment makes a cap of it \<open>NaN\<close> or zero.
\<close>

theorem default_caps:
  "RateLimiter_constructor None
     = Normal \<lparr> requests = Map.empty,
                config = \<lparr> requestsPerMinute = Num 60, requestsPerHour = Num 1000,
                           requestsPerDay = Num 5000 \<rparr> \<rparr>
   \<and> RateLimiter_constructor
       (Some \<lparr> requestsPerMinute_opt = None, requestsPerHour_opt = None,
               requestsPerDay_opt = None \<rparr>) = RateLimiter_constructor None
   \<and> (\<exists>rl. rateLimiter str2num env = Normal rl
        \<and> requests rl = Map.empty
        \<and> (env ''RATE_LIMIT_REQUESTS_PER_MINUTE'' = None
             \<or> (\<exists>s. env ''RATE_LIMIT_REQUESTS_PER_MINUTE'' = Some s
                    \<and> (str2num s = NaN \<or> str2num s = Num 0))
            \<longrightarrow> requestsPerMinute (config rl) = Num 15)
        \<and> (env ''RATE_LIMIT_REQUESTS_PER_HOUR'' = None
             \<or> (\<exists>s. env ''RATE_LIMIT_REQUESTS_PER_HOUR'' = Some s
                    \<and> (str2num s = NaN \<or> str2num s = Num 0))
            \<longrightarrow> requestsPerHour (config rl) = Num 250)
        \<and> (env ''RATE_LIMIT_REQUESTS_PER_DAY'' = None
             \<or> (\<exists>s. env ''RATE_LIMIT_REQUESTS_PER_DAY'' = Some s
                    \<and> (str2num s = NaN \<or> str2num s = Num 0))
            \<longrightarrow> requestsPerDay (config rl) = Num 500)
        \<and> requestsPerMinute (config rl) \<noteq> NaN \<and> requestsPerMinute (config rl) \<noteq> Num 0
        \<and> requestsPerHour (config rl) \<noteq> NaN \<and> requestsPerHour (config rl) \<noteq> Num 0
        \<and> requestsPerDay (config rl) \<noteq> NaN \<and> requestsPerDay (config rl) \<noteq> Num 0)"
proof (intro conjI)
  show "RateLimiter_constructor None
     = Normal \<lparr> requests = Map.empty,
                config = \<lparr> requestsPerMinute = Num 60, requestsPerHour = Num 1000,
                           requestsPerDay = Num 5000 \<rparr> \<rparr>"
    by (simp add: RateLimiter_constructor_def RateLimiter_new_def nullish_def opt_chain_def)
next
  show "RateLimiter_constructor
       (Some \<lparr> requestsPerMinute_opt = None, requestsPerHour_opt = None,
               requestsPerDay_opt = None \<rparr>) = RateLimiter_constructor None"
    by (simp add: RateLimiter_constructor_def RateLimiter_new_def nullish_def opt_chain_def)
next
  have falsy: "js_or a b = b" if "a = NaN \<or> a = Num 0" for a b
    using that by (auto simp: js_or_def)
  have never: "js_or a (Num d) \<noteq> NaN \<and> js_or a (Num d) \<noteq> Num 0" if "d \<noteq> 0" for a d
    using that by (cases a) (auto simp: js_or_def)
  show "\<exists>rl. rateLimiter str2num env = Normal rl
        \<and> requests rl = Map.empty
        \<and> (env ''RATE_LIMIT_REQUESTS_PER_MINUTE'' = None
             \<or> (\<exists>s. env ''RATE_LIMIT_REQUESTS_PER_MINUTE'' = Some s
                    \<and> (str2num s = NaN \<or> str2num s = Num 0))
            \<longrightarrow> requestsPerMinute (config rl) = Num 15)
        \<and> (env ''RATE_LIMIT_REQUESTS_PER_HOUR'' = None
             \<or> (\<exists>s. env ''RATE_LIMIT_REQUESTS_PER_HOUR'' = Some s
                    \<and> (str2num s = NaN \<or> str2num s = Num 0))
            \<longrightarrow> requestsPerHour (config rl) = Num 250)
        \<and> (env ''RATE_LIMIT_REQUESTS_PER_DAY'' = None
             \<or> (\<exists>s. env ''RATE_LIMIT_REQUESTS_PER_DAY'' = Some s
                    \<and> (str2num s = NaN \<or> str2num s = Num 0))
            \<longrightarrow> requestsPerDay (config rl) = Num 500)
        \<and> requestsPerMinute (config rl) \<noteq> NaN \<and> requestsPerMinute (config rl) \<noteq> Num 0
        \<and> requestsPerHour (config rl) \<noteq> NaN \<and> requestsPerHour (config rl) \<noteq> Num 0
        \<and> requestsPerDay (config rl) \<noteq> NaN \<and> requestsPerDay (config rl) \<noteq> Num 0"
    by (auto simp: rateLimiter_def RateLimiter_constructor_def RateLimiter_new_def nullish_def
        opt_chain_def js_Number_def falsy never)
qed

theorem default_caps_witness:
  "rateLimiter (\<lambda>s. if s = ''100'' then Num 100 else NaN)
     [''RATE_LIMIT_REQUESTS_PER_MINUTE'' \<mapsto> ''fifteen'',
      ''RATE_LIMIT_REQUESTS_PER_HOUR'' \<mapsto> ''100'']
   = Normal \<lparr> requests = Map.empty,
              config = \<lparr> requestsPerMinute = Num 15, requestsPerHour = Num 100,
                         requestsPerDay = Num 500 \<rparr> \<rparr>
   \<and> rateLimiter (\<lambda>s. if s = ''100'' then Num 100 else NaN) Map.empty
   = Normal \<lparr> requests = Map.empty,
              config = \<lparr> requestsPerMinute = Num 15, requestsPerHour = Num 250,
                         requestsPerDay = Num 500 \<rparr> \<rparr>"
  using default_caps
      [where str2num = "\<lambda>s. if s = ''100'' then Num 100 else NaN"
         and env = "[''RATE_LIMIT_REQUESTS_PER_MINUTE'' \<mapsto> ''fifteen'',
                     ''RATE_LIMIT_REQUESTS_PER_HOUR'' \<mapsto> ''100'']"]
    default_caps
      [where str2num = "\<lambda>s. if s = ''100'' then Num 100 else NaN" and env = Map.empty]
  by (simp add: rateLimiter_def RateLimiter_constructor_def RateLimiter_new_def nullish_def
      opt_chain_def js_Number_def js_or_def)

section \<open>The edges of the windows\<close>

lemma count_pruned:
  assumes "w \<le> day"
  shows "length (filter (\<lambda>ts. now - ts < w) (pruned now tss))
           = length (filter (\<lambda>ts. now - ts < w) tss)"
proof -
  have "filter (\<lambda>ts. now - ts < w) (pruned now tss) = filter (\<lambda>ts. now - ts < w) tss"
    unfolding pruned_def filter_filter using assms by (intro filter_cong) auto
  then show ?thesis by simp
qed

text \<open>
  Claim C10. The minute count of a call is the number of recorded timestamps whose age is
  strictly below 60 000 ms, the hour count the number of those strictly below 3 600 000 ms,
  the day count the number of those strictly below 86 400 000 ms. So a timestamp aged
  exactly 60 000 ms adds nothing to the minute count while one aged 59 999 ms adds one;
  likewise at 3 600 000 ms for the hour count; and a timestamp aged exactly 86 400 000 ms
  is pruned while one aged 86 399 999 ms is kept.
\<close>

theorem windows_are_strict:
  "lastMinute now (pruned now tss) = length (filter (\<lambda>ts. now - ts < 60000) tss)
   \<and> lastHour now (pruned now tss) = length (filter (\<lambda>ts. now - ts < 3600000) tss)
   \<and> lastDay (pruned now tss) = length (filter (\<lambda>ts. now - ts < 86400000) tss)
   \<and> lastMinute now (pruned now ((now - 60000) # tss)) = lastMinute now (pruned now tss)
   \<and> lastMinute now (pruned now ((now - 59999) # tss)) = lastMinute now (pruned now tss) + 1
   \<and> lastHour now (pruned now ((now - 3600000) # tss)) = lastHour now (pruned now tss)
   \<and> lastHour now (pruned now ((now - 3599999) # tss)) = lastHour now (pruned now tss) + 1
   \<and> pruned now ((now - 86400000) # tss) = pruned now tss
   \<and> lastDay (pruned now ((now - 86400000) # tss)) = lastDay (pruned now tss)
   \<and> pruned now ((now - 86399999) # tss) = (now - 86399999) # pruned now tss
   \<and> lastDay (pruned now ((now - 86399999) # tss)) = lastDay (pruned now tss) + 1"
proof -
  have m: "lastMinute now (pruned now xs) = length (filter (\<lambda>ts. now - ts < 60000) xs)" for xs
    using count_pruned [of minute now xs] by (simp add: lastMinute_def window_lengths)
  have h: "lastHour now (pruned now xs) = length (filter (\<lambda>ts. now - ts < 3600000) xs)" for xs
    using count_pruned [of hour now xs] by (simp add: lastHour_def window_lengths)
  have d: "lastDay (pruned now xs) = length (filter (\<lambda>ts. now - ts < 86400000) xs)" for xs
    by (simp add: lastDay_def pruned_def window_lengths)
  have p: "pruned now ((now - 86400000) # tss) = pruned now tss"
    "pruned now ((now - 86399999) # tss) = (now - 86399999) # pruned now tss"
    by (simp_all add: pruned_def window_lengths)
  show ?thesis
    by (simp add: m h d) (simp add: p)
qed

theorem windows_are_strict_witness:
  "lastMinute 1700000060000 (pruned 1700000060000 [1700000000000, 1700000000001]) = 1
   \<and> lastHour 1700003600000 (pruned 1700003600000 [1700000000000, 1700000000001]) = 1
   \<and> pruned 1700086400000 [1700000000000, 1700000000001] = [1700000000001]
   \<and> decisions one_per_minute_limiter
        [(1700000000000, ''A''), (1700000059999, ''A''), (1700000060000, ''A'')]
       = [True, False, True]"
  using windows_are_strict [where now = 1700000060000 and tss = "[1700000000001]"]
    windows_are_strict [where now = 1700003600000 and tss = "[1700000000001]"]
    windows_are_strict [where now = 1700086400000 and tss = "[1700000000001]"]
  by (simp add: one_per_minute_limiter_def eval_defs)

section \<open>Bursts of simultaneous calls\<close>

text \<open>
  \<open>checkLimit\<close> awaits nothing, so a call runs from its read of the record to its write
  without any other call in between: calls issued together are served one after the
  other, at one instant, which is a history that repeats the same call.
\<close>

lemma js_ge_below:
  "js_ge cap (Num (real C)) \<Longrightarrow> k < C \<Longrightarrow> \<not> js_ge (Num (real k)) cap"
  by (cases cap) simp_all

lemma pruned_replicate_now: "pruned now (replicate k now @ [now]) = replicate (Suc k) now"
  by (simp add: pruned_def window_lengths replicate_append_same)

lemma counts_replicate_now:
  "lastMinute now (replicate k now) = k" "lastHour now (replicate k now) = k"
  "lastDay (replicate k now) = k"
  by (simp_all add: lastMinute_def lastHour_def lastDay_def window_lengths)

lemma burst_decisions:
  assumes "requestsPerMinute (config this) = Num (real C)"
    and "js_ge (requestsPerHour (config this)) (Num (real C))"
    and "js_ge (requestsPerDay (config this)) (Num (real C))"
    and "pruned now (get_timestamps this c) = replicate k now"
    and "k \<le> C"
  shows "decisions this (replicate n (now, c))
           = replicate (min n (C - k)) True @ replicate (n - (C - k)) False
         \<and> admitted this (replicate n (now, c)) c = min n (C - k)"
  using assms
proof (induction n arbitrary: this k)
  case 0
  then show ?case by simp
next
  case (Suc n)
  let ?r = "checkLimit this now c"
  show ?case
  proof (cases "k < C")
    case True
    have adm: "returned ?r"
      using Suc.prems True
      by (simp add: checkLimit_def Let_def counts_replicate_now js_ge_below)
    then have "get_timestamps (limiter ?r) c = replicate k now @ [now]"
      using Suc.prems(4) by (simp add: checkLimit_admitted_timestamps)
    then have next_record: "pruned now (get_timestamps (limiter ?r) c) = replicate (Suc k) now"
      by (simp only: pruned_replicate_now)
    have "decisions (limiter ?r) (replicate n (now, c))
           = replicate (min n (C - Suc k)) True @ replicate (n - (C - Suc k)) False
         \<and> admitted (limiter ?r) (replicate n (now, c)) c = min n (C - Suc k)"
      using Suc.prems True next_record by (intro Suc.IH) simp_all
    moreover from True obtain j where "C - k = Suc j" "C - Suc k = j"
      by (cases "C - k") auto
    ultimately show ?thesis
      using adm by simp
  next
    case False
    with Suc.prems have full: "k = C" by simp
    have rej: "\<not> returned ?r"
      using Suc.prems full by (simp add: checkLimit_def Let_def counts_replicate_now)
    then have same: "limiter ?r = this"
      by (rule checkLimit_rejected_state)
    have "decisions this (replicate n (now, c))
           = replicate (min n (C - k)) True @ replicate (n - (C - k)) False
         \<and> admitted this (replicate n (now, c)) c = min n (C - k)"
      using Suc.prems by (intro Suc.IH) simp_all
    then show ?thesis
      using rej same full by simp
  qed
qed

lemma burst_bounded:
  assumes "requestsPerMinute (config this) = Num (real C)"
  shows "admitted this (replicate n (now, c)) c \<le> C"
proof -
  have "\<forall>(t, c') \<in> set (replicate n (now, c)). c' = c \<longrightarrow> now \<le> t \<and> t < now + minute"
    by (auto simp: window_lengths)
  from admitted_bounded [OF assms this]
  show ?thesis by (simp add: max_def split: if_splits)
qed

text \<open>
  Claim C9, as stated, fails when the hour cap is below the minute cap. With 5 a minute
  and 1 an hour allowed, six calls issued together for one client are answered true once
  and false five times: one admission, where the claim says five.
\<close>

theorem burst_under_low_hour_cap:
  "requestsPerMinute (config hour_below_minute_limiter) = Num 5
   \<and> decisions hour_below_minute_limiter
        [(1700000000000, ''A''), (1700000000000, ''A''), (1700000000000, ''A''),
         (1700000000000, ''A''), (1700000000000, ''A''), (1700000000000, ''A'')]
       = [True, False, False, False, False, False]
   \<and> admitted hour_below_minute_limiter
        [(1700000000000, ''A''), (1700000000000, ''A''), (1700000000000, ''A''),
         (1700000000000, ''A''), (1700000000000, ''A''), (1700000000000, ''A'')] ''A'' = 1"
  by (simp add: hour_below_minute_limiter_def eval_defs)

text \<open>
  Claim C9, amended. \<open>N\<close> calls issued together for one client, served one after the
  other, never see more admitted than the minute cap, whatever the limiter's state and
  other caps. When moreover the hour and day caps are not below the minute cap and the
  client has no recorded request of the last 24 hours, and \<open>N\<close> exceeds the minute
  cap, exactly as many calls as the cap are admitted, the first ones, and the remaining
  \<open>N\<close> - cap are rejected.
\<close>

theorem burst_admits_cap:
  "(requestsPerMinute (config this) = Num (real C)
      \<longrightarrow> admitted this (replicate N (now, c)) c \<le> C)
   \<and> (requestsPerMinute (config this) = Num (real C)
      \<and> js_ge (requestsPerHour (config this)) (Num (real C))
      \<and> js_ge (requestsPerDay (config this)) (Num (real C))
      \<and> pruned now (get_timestamps this c) = []
      \<and> C < N
      \<longrightarrow> decisions this (replicate N (now, c))
            = replicate C True @ replicate (N - C) False
          \<and> admitted this (replicate N (now, c)) c = C
          \<and> length (filter Not (decisions this (replicate N (now, c)))) = N - C)"
proof (intro conjI impI)
  assume "requestsPerMinute (config this) = Num (real C)"
  then show "admitted this (replicate N (now, c)) c \<le> C"
    by (rule burst_bounded)
next
  assume a: "requestsPerMinute (config this) = Num (real C)
      \<and> js_ge (requestsPerHour (config this)) (Num (real C))
      \<and> js_ge (requestsPerDay (config this)) (Num (real C))
      \<and> pruned now (get_timestamps this c) = []
      \<and> C < N"
  then have "decisions this (replicate N (now, c))
           = replicate (min N (C - 0)) True @ replicate (N - (C - 0)) False
         \<and> admitted this (replicate N (now, c)) c = min N (C - 0)"
    by (intro burst_decisions) simp_all
  with a show d: "decisions this (replicate N (now, c))
      = replicate C True @ replicate (N - C) False"
    and "admitted this (replicate N (now, c)) c = C"
    by (simp_all add: min_def)
  show "length (filter Not (decisions this (replicate N (now, c)))) = N - C"
    unfolding d by simp
qed

theorem burst_admits_cap_witness:
  "decisions scenario_limiter
     [(1700000000000, ''A''), (1700000000000, ''A''), (1700000000000, ''A''),
      (1700000000000, ''A''), (1700000000000, ''A'')]
   = [True, True, False, False, False]
   \<and> admitted scenario_limiter
     [(1700000000000, ''A''), (1700000000000, ''A''), (1700000000000, ''A''),
      (1700000000000, ''A''), (1700000000000, ''A'')] ''A'' = 2"
proof -
  have five: "replicate 5 x = [x, x, x, x, x]" for x :: "int \<times> string"
    by (simp add: numeral_eq_Suc)
  have two: "replicate 2 True @ replicate (5 - 2) False = [True, True, False, False, False]"
    by (simp add: numeral_eq_Suc)
  have pre: "requestsPerMinute (config scenario_limiter) = Num (real 2)
      \<and> js_ge (requestsPerHour (config scenario_limiter)) (Num (real 2))
      \<and> js_ge (requestsPerDay (config scenario_limiter)) (Num (real 2))
      \<and> pruned 1700000000000 (get_timestamps scenario_limiter ''A'') = []
      \<and> (2::nat) < 5"
    by (simp add: scenario_limiter_def eval_defs)
  note burst_admits_cap [where this = scenario_limiter and C = 2 and N = 5
      and now = 1700000000000 and c = "''A''", THEN conjunct2, THEN mp, OF pre]
  then show ?thesis
    unfolding five two by (elim conjE) (intro conjI, assumption+)
qed

end
